theory Spec2Isabelle
  imports Main "HOL-Library.Word"
begin

section \<open>SystemBase: dependency tickets and cache-entry declaration\<close>

text \<open>
  A shallow embedding of \<^verbatim>\<open>systems/framework/system_base.h\<close>. The class
  \<^verbatim>\<open>SystemBase\<close> becomes a record of its data members, every member function a
  function that takes the object and, where it mutates, returns the updated object.
  Exceptions and failed \<^verbatim>\<open>DRAKE_DEMAND\<close>s are values of the type \<open>error\<close>.
\<close>

subsection \<open>Data model\<close>

text \<open>
  \<^verbatim>\<open>DependencyTicket\<close> and \<^verbatim>\<open>CacheIndex\<close> are type-safe wrappers of a C++
  \<^verbatim>\<open>int\<close>: 32-bit words, read as two's complement by \<open>sint\<close>. Addition on words
  wraps around; a statement that depends on the absence of signed overflow says so
  as a hypothesis.
\<close>

type_synonym DependencyTicket = "32 word"
type_synonym CacheIndex = "32 word"
type_synonym class_name = string

datatype error =
    logic_error         \<comment> \<open>\<^verbatim>\<open>std::logic_error\<close>: an explicitly empty prerequisite list\<close>
  | contract_violation  \<comment> \<open>the nothing ticket listed together with other entries\<close>
  | demand_failure      \<comment> \<open>a failed \<^verbatim>\<open>DRAKE_DEMAND\<close>\<close>
  | bad_cast            \<comment> \<open>\<^verbatim>\<open>std::bad_cast\<close> of a failed reference \<^verbatim>\<open>dynamic_cast\<close>\<close>
  | thrown string       \<comment> \<open>any other exception, with its diagnostic\<close>

text \<open>
  The callbacks of a cache entry, \<^verbatim>\<open>CacheEntry::AllocCallback\<close> and
  \<^verbatim>\<open>CacheEntry::CalcCallback\<close>, with the signatures that the documentation of
  \<^verbatim>\<open>DeclareCacheEntry\<close> gives. \<open>'ctx\<close> stands for \<^verbatim>\<open>ContextBase\<close>, \<open>'av\<close> for
  \<^verbatim>\<open>AbstractValue\<close>. The calculator writes through its pointer argument: it is
  given the old contents and returns the new ones.
\<close>

type_synonym ('ctx, 'av) AllocCallback = "'ctx \<Rightarrow> error + 'av"
type_synonym ('ctx, 'av) CalcCallback = "'ctx \<Rightarrow> 'av \<Rightarrow> error + 'av"

text \<open>
  Modelled from the spec: the class \<^verbatim>\<open>CacheEntry\<close> (\<^verbatim>\<open>cache_entry.h\<close> is
  missing). Section 3 lists its attributes: "human-readable description", "allocator
  function", "calculator function", "prerequisite ticket set", "an assigned cache
  index and an assigned dependency ticket". \<^verbatim>\<open>system_base.h\<close> reads the ticket
  by \<^verbatim>\<open>ticket()\<close>.
\<close>

record ('ctx, 'av) CacheEntry =
  cache_index :: CacheIndex
  ticket :: DependencyTicket
  entry_description :: string
  Alloc :: "('ctx, 'av) AllocCallback"
  Calc :: "('ctx, 'av) CalcCallback"
  prerequisites :: "DependencyTicket list"

text \<open>
  The data members of \<^verbatim>\<open>SystemBase\<close> (\<^verbatim>\<open>cache_entries_\<close>,
  \<^verbatim>\<open>next_available_ticket_\<close>, \<^verbatim>\<open>name_\<close>; the trailing underscore is not a legal
  name here). \<open>system_type\<close> is the most-derived class of the object, which C++
  keeps behind the object's vtable pointer: \<^verbatim>\<open>GetSystemType\<close> and
  \<^verbatim>\<open>dynamic_cast\<close> read it. A derived class extends the record.
\<close>

record ('ctx, 'av) SystemBase =
  cache_entries :: "('ctx, 'av) CacheEntry list"
  next_available_ticket :: DependencyTicket
  name :: string
  system_type :: class_name

subsection \<open>Well-known tickets\<close>

text \<open>
  The enumeration \<^verbatim>\<open>internal::BuiltInTicketNumbers\<close> of
  \<^verbatim>\<open>framework_common.h\<close> is not part of the sources at hand, so its numbers are
  a parameter: one field for every constant that \<^verbatim>\<open>system_base.h\<close> names.
\<close>

record BuiltInTicketNumbers =
  kAllSourcesTicket :: DependencyTicket
  kNothingTicket :: DependencyTicket
  kTimeTicket :: DependencyTicket
  kAccuracyTicket :: DependencyTicket
  kQTicket :: DependencyTicket
  kVTicket :: DependencyTicket
  kZTicket :: DependencyTicket
  kXcTicket :: DependencyTicket
  kXdTicket :: DependencyTicket
  kXaTicket :: DependencyTicket
  kXTicket :: DependencyTicket
  kXcdotTicket :: DependencyTicket
  kXdhatTicket :: DependencyTicket
  kConfigurationTicket :: DependencyTicket
  kVelocityTicket :: DependencyTicket
  kKinematicsTicket :: DependencyTicket
  kAllParametersTicket :: DependencyTicket
  kAllInputPortsTicket :: DependencyTicket
  kNextAvailableTicket :: DependencyTicket

definition all_sources_ticket :: "BuiltInTicketNumbers \<Rightarrow> DependencyTicket" where
  "all_sources_ticket K = kAllSourcesTicket K"

definition nothing_ticket :: "BuiltInTicketNumbers \<Rightarrow> DependencyTicket" where
  "nothing_ticket K = kNothingTicket K"

definition time_ticket :: "BuiltInTicketNumbers \<Rightarrow> DependencyTicket" where
  "time_ticket K = kTimeTicket K"

definition accuracy_ticket :: "BuiltInTicketNumbers \<Rightarrow> DependencyTicket" where
  "accuracy_ticket K = kAccuracyTicket K"

definition q_ticket :: "BuiltInTicketNumbers \<Rightarrow> DependencyTicket" where
  "q_ticket K = kQTicket K"

definition v_ticket :: "BuiltInTicketNumbers \<Rightarrow> DependencyTicket" where
  "v_ticket K = kVTicket K"

definition z_ticket :: "BuiltInTicketNumbers \<Rightarrow> DependencyTicket" where
  "z_ticket K = kZTicket K"

definition xc_ticket :: "BuiltInTicketNumbers \<Rightarrow> DependencyTicket" where
  "xc_ticket K = kXcTicket K"

definition xd_ticket :: "BuiltInTicketNumbers \<Rightarrow> DependencyTicket" where
  "xd_ticket K = kXdTicket K"

definition xa_ticket :: "BuiltInTicketNumbers \<Rightarrow> DependencyTicket" where
  "xa_ticket K = kXaTicket K"

definition all_state_ticket :: "BuiltInTicketNumbers \<Rightarrow> DependencyTicket" where
  "all_state_ticket K = kXTicket K"

definition xcdot_ticket :: "BuiltInTicketNumbers \<Rightarrow> DependencyTicket" where
  "xcdot_ticket K = kXcdotTicket K"

definition xdhat_ticket :: "BuiltInTicketNumbers \<Rightarrow> DependencyTicket" where
  "xdhat_ticket K = kXdhatTicket K"

definition configuration_ticket :: "BuiltInTicketNumbers \<Rightarrow> DependencyTicket" where
  "configuration_ticket K = kConfigurationTicket K"

definition velocity_ticket :: "BuiltInTicketNumbers \<Rightarrow> DependencyTicket" where
  "velocity_ticket K = kVelocityTicket K"

definition kinematics_ticket :: "BuiltInTicketNumbers \<Rightarrow> DependencyTicket" where
  "kinematics_ticket K = kKinematicsTicket K"

definition all_parameters_ticket :: "BuiltInTicketNumbers \<Rightarrow> DependencyTicket" where
  "all_parameters_ticket K = kAllParametersTicket K"

definition all_input_ports_ticket :: "BuiltInTicketNumbers \<Rightarrow> DependencyTicket" where
  "all_input_ports_ticket K = kAllInputPortsTicket K"

text \<open>What the eighteen static accessors return, in the order of their declaration.\<close>

definition well_known_tickets :: "BuiltInTicketNumbers \<Rightarrow> DependencyTicket list" where
  "well_known_tickets K =
     [all_sources_ticket K, nothing_ticket K, time_ticket K, accuracy_ticket K,
      q_ticket K, v_ticket K, z_ticket K, xc_ticket K, xd_ticket K, xa_ticket K,
      all_state_ticket K, xcdot_ticket K, xdhat_ticket K, configuration_ticket K,
      velocity_ticket K, kinematics_ticket K, all_parameters_ticket K,
      all_input_ports_ticket K]"

text \<open>
  Modelled from the spec: the values of \<^verbatim>\<open>internal::BuiltInTicketNumbers\<close>
  (\<^verbatim>\<open>framework_common.h\<close>, missing). The spec fixes no number, only that the
  counter is seeded "to start immediately after the last well-known ticket value";
  the comment on \<^verbatim>\<open>next_available_ticket_\<close> calls \<^verbatim>\<open>kNextAvailableTicket\<close> "the
  first ticket number available after all the well-known ones". Ticket numbers are
  valid indices, hence not negative.
\<close>

definition seeded_after_well_known :: "BuiltInTicketNumbers \<Rightarrow> bool" where
  "seeded_after_well_known K =
     (list_all (\<lambda>t. 0 \<le> sint t \<and> sint t < sint (kNextAvailableTicket K))
        (well_known_tickets K)
      \<and> list_ex (\<lambda>t. sint t + 1 = sint (kNextAvailableTicket K)) (well_known_tickets K))"

subsection \<open>Construction and the ticket counter\<close>

text \<open>
  \<^verbatim>\<open>SystemBase() = default\<close> with the member initialisers: no cache entry, the
  counter at \<^verbatim>\<open>internal::kNextAvailableTicket\<close>, the empty name. \<open>T\<close> is the
  class of the object under construction.
\<close>

definition SystemBase_default ::
  "BuiltInTicketNumbers \<Rightarrow> class_name \<Rightarrow> ('ctx, 'av) SystemBase" where
  "SystemBase_default K T =
     \<lparr>cache_entries = [], next_available_ticket = kNextAvailableTicket K,
      name = [], system_type = T\<rparr>"

text \<open>\<^verbatim>\<open>return next_available_ticket_++;\<close>\<close>

definition assign_next_dependency_ticket ::
  "('ctx, 'av, 'z) SystemBase_scheme
    \<Rightarrow> DependencyTicket \<times> ('ctx, 'av, 'z) SystemBase_scheme" where
  "assign_next_dependency_ticket s =
     (next_available_ticket s, s\<lparr>next_available_ticket := next_available_ticket s + 1\<rparr>)"

text \<open>\<open>n\<close> issuances in a row, with the tickets handed out, in order.\<close>

fun issue_tickets ::
  "nat \<Rightarrow> ('ctx, 'av, 'z) SystemBase_scheme
    \<Rightarrow> DependencyTicket list \<times> ('ctx, 'av, 'z) SystemBase_scheme" where
  "issue_tickets 0 s = ([], s)"
| "issue_tickets (Suc n) s =
     (case assign_next_dependency_ticket s of
        (t, s1) \<Rightarrow> (case issue_tickets n s1 of (ts, s2) \<Rightarrow> (t # ts, s2)))"

subsection \<open>The cache-entry table\<close>

text \<open>\<^verbatim>\<open>static_cast<int>(cache_entries_.size())\<close>\<close>

definition num_cache_entries :: "('ctx, 'av, 'z) SystemBase_scheme \<Rightarrow> 32 word" where
  "num_cache_entries s = word_of_nat (length (cache_entries s))"

text \<open>
  \<^verbatim>\<open>cache_entry_ticket\<close>: the \<^verbatim>\<open>DRAKE_DEMAND\<close> on the index range, then the
  ticket of the entry at that position. \<^verbatim>\<open>DRAKE_DEMAND\<close> is checked in every
  build; a condition that is false ends the run.
\<close>

definition cache_entry_ticket ::
  "('ctx, 'av, 'z) SystemBase_scheme \<Rightarrow> CacheIndex \<Rightarrow> error + DependencyTicket" where
  "cache_entry_ticket s index =
     (if 0 \<le> sint index \<and> sint index < sint (num_cache_entries s)
      then Inr (ticket (cache_entries s ! nat (sint index)))
      else Inl demand_failure)"

subsection \<open>Declaring cache entries: the general form\<close>

text \<open>
  The default argument of every \<^verbatim>\<open>DeclareCacheEntry\<close> overload,
  \<^verbatim>\<open>prerequisites_of_calc = {all_sources_ticket()}\<close>: \<open>None\<close> is a call that
  omits the list.
\<close>

definition default_prerequisites ::
  "BuiltInTicketNumbers \<Rightarrow> DependencyTicket list option \<Rightarrow> DependencyTicket list" where
  "default_prerequisites K prerequisites_of_calc =
     (case prerequisites_of_calc of None \<Rightarrow> [all_sources_ticket K] | Some ps \<Rightarrow> ps)"

text \<open>
  Modelled from the spec: the body of the general \<^verbatim>\<open>DeclareCacheEntry\<close>
  (\<^verbatim>\<open>system_base.cc\<close>) and the constructor of \<^verbatim>\<open>CacheEntry\<close> are missing; the
  header has the declaration, its default argument and its documentation only.
  From the spec, section 4.2: "an explicitly empty prerequisite list is rejected at
  declaration time"; sections 4.1 and 8: the nothing ticket "must be the sole
  element" of a list that has it, and "declaring with {nothing} plus any other
  ticket always fails"; otherwise the call "appends to the cache-entry table and
  advances the ticket counter by one", and the entry carries its description,
  allocator, calculator, prerequisites, "an assigned cache index" (the "position of
  declaration, 0-based") "and an assigned dependency ticket".

  Neither the spec nor the header says whether the body draws the ticket before it
  looks at the list or after. That order is the parameter \<open>ticket_first\<close>: a
  rejected declaration adds no entry, and it has advanced the counter exactly when
  the ticket is drawn first.
\<close>

definition DeclareCacheEntry ::
  "BuiltInTicketNumbers \<Rightarrow> bool \<Rightarrow> ('ctx, 'av, 'z) SystemBase_scheme \<Rightarrow> string
    \<Rightarrow> ('ctx, 'av) AllocCallback \<Rightarrow> ('ctx, 'av) CalcCallback
    \<Rightarrow> DependencyTicket list option
    \<Rightarrow> ('ctx, 'av, 'z) SystemBase_scheme \<times> (error + ('ctx, 'av) CacheEntry)" where
  "DeclareCacheEntry K ticket_first s description alloc_function calc_function
       prerequisites_of_calc =
     (let ps = default_prerequisites K prerequisites_of_calc in
      case assign_next_dependency_ticket s of
        (new_ticket, s1) \<Rightarrow>
          let rejected = (if ticket_first then s1 else s) in
          if ps = [] then (rejected, Inl logic_error)
          else if nothing_ticket K \<in> set ps \<and> length ps \<noteq> 1
          then (rejected, Inl contract_violation)
          else
            let entry =
              \<lparr>cache_index = num_cache_entries s, ticket = new_ticket,
               entry_description = description, Alloc = alloc_function,
               Calc = calc_function, prerequisites = ps\<rparr>
            in (s1\<lparr>cache_entries := cache_entries s1 @ [entry]\<rparr>, Inr entry))"

subsection \<open>Declaring cache entries: the member-function forms\<close>

text \<open>
  The three templates take \<^verbatim>\<open>MySystem\<close>, \<^verbatim>\<open>MyContext\<close> and \<^verbatim>\<open>ValueType\<close>.
  What the bodies use of them is collected here:
  \<^item> \<open>MySystem\<close>: the class that owns the member functions;
  \<^item> \<open>as_MyContext\<close>: \<^verbatim>\<open>dynamic_cast<const MyContext&>(context)\<close>, \<open>None\<close> where
    the cast throws;
  \<^item> \<open>Make\<close>: \<^verbatim>\<open>AbstractValue::Make(v)\<close>, also \<^verbatim>\<open>new Value<ValueType>(v)\<close>;
  \<^item> \<open>GetMutableValue\<close>: \<^verbatim>\<open>result->GetMutableValue<ValueType>()\<close>, an error
    where the stored value is of another type;
  \<^item> \<open>ValueType_init\<close>: the value-initialised \<^verbatim>\<open>ValueType{}\<close>.
  The class declarations are not part of this file: \<open>H D B\<close> says that an object
  of most-derived class \<open>D\<close> can be \<^verbatim>\<open>dynamic_cast\<close> to \<open>B\<close>, that is, \<open>B\<close> is
  \<open>D\<close> or a base of it. Each template calls the general form: \<open>ticket_first\<close>
  is the parameter of that form, handed on.
\<close>

record ('ctx, 'av, 'myctx, 'val) template_arguments =
  MySystem :: class_name
  as_MyContext :: "'ctx \<Rightarrow> 'myctx option"
  Make :: "'val \<Rightarrow> 'av"
  GetMutableValue :: "'av \<Rightarrow> error + 'val"
  ValueType_init :: 'val

type_synonym class_hierarchy = "class_name \<Rightarrow> class_name \<Rightarrow> bool"

text \<open>\<^verbatim>\<open>dynamic_cast<const MySystem*>(this)\<close>; \<open>None\<close> is the null pointer.\<close>

definition dynamic_cast_this ::
  "class_hierarchy \<Rightarrow> class_name \<Rightarrow> ('ctx, 'av, 'z) SystemBase_scheme
    \<Rightarrow> ('ctx, 'av, 'z) SystemBase_scheme option" where
  "dynamic_cast_this H C s = (if H (system_type s) C then Some s else None)"

text \<open>
  \<^verbatim>\<open>AbstractValue::Clone\<close> (\<^verbatim>\<open>value.h\<close> is missing) makes "a fresh copy" of
  the value; a value here has no identity, so the copy is the value. Constructing
  and copying a value are pure.
\<close>

definition Clone :: "'av \<Rightarrow> 'av" where
  "Clone v = v"

text \<open>
  A member function is modelled bound to its receiver \<^verbatim>\<open>this_ptr\<close>:
  \<open>make_fn\<close> stands for \<^verbatim>\<open>this_ptr->*make\<close>, \<open>calc\<close> for \<^verbatim>\<open>this_ptr->*calc\<close>, which
  is given the value behind its pointer argument and returns the value it leaves
  there. Both may throw.

  The calculator lambda, which the make form and the model-value form spell out
  alike: cast the context, get the typed value, call \<open>calc\<close>.
\<close>

definition calc_callback ::
  "('ctx, 'av, 'myctx, 'val) template_arguments \<Rightarrow> ('myctx \<Rightarrow> 'val \<Rightarrow> error + 'val)
    \<Rightarrow> ('ctx, 'av) CalcCallback" where
  "calc_callback A calc = (\<lambda>context result.
     case as_MyContext A context of
       None \<Rightarrow> Inl bad_cast
     | Some typed_context \<Rightarrow>
         (case GetMutableValue A result of
            Inl e \<Rightarrow> Inl e
          | Inr typed_result \<Rightarrow>
              (case calc typed_context typed_result of
                 Inl e \<Rightarrow> Inl e
               | Inr v \<Rightarrow> Inr (Make A v))))"

text \<open>Takes \<^verbatim>\<open>make()\<close> and \<^verbatim>\<open>calc()\<close> member functions.\<close>

definition DeclareCacheEntry_make ::
  "BuiltInTicketNumbers \<Rightarrow> bool \<Rightarrow> class_hierarchy \<Rightarrow> ('ctx, 'av, 'myctx, 'val) template_arguments
    \<Rightarrow> ('ctx, 'av, 'z) SystemBase_scheme \<Rightarrow> string
    \<Rightarrow> ('myctx \<Rightarrow> error + 'val) \<Rightarrow> ('myctx \<Rightarrow> 'val \<Rightarrow> error + 'val)
    \<Rightarrow> DependencyTicket list option
    \<Rightarrow> ('ctx, 'av, 'z) SystemBase_scheme \<times> (error + ('ctx, 'av) CacheEntry)" where
  "DeclareCacheEntry_make K ticket_first H A s description make_fn calc prerequisites_of_calc =
     (case dynamic_cast_this H (MySystem A) s of
        None \<Rightarrow> (s, Inl demand_failure)
      | Some this_ptr \<Rightarrow>
          let alloc_callback = (\<lambda>context.
                case as_MyContext A context of
                  None \<Rightarrow> Inl bad_cast
                | Some typed_context \<Rightarrow>
                    (case make_fn typed_context of
                       Inl e \<Rightarrow> Inl e
                     | Inr v \<Rightarrow> Inr (Make A v)))
          in DeclareCacheEntry K ticket_first s description alloc_callback (calc_callback A calc)
               (Some (default_prerequisites K prerequisites_of_calc)))"

text \<open>Takes an initial value and a \<^verbatim>\<open>calc()\<close> member function.\<close>

definition DeclareCacheEntry_model ::
  "BuiltInTicketNumbers \<Rightarrow> bool \<Rightarrow> class_hierarchy \<Rightarrow> ('ctx, 'av, 'myctx, 'val) template_arguments
    \<Rightarrow> ('ctx, 'av, 'z) SystemBase_scheme \<Rightarrow> string
    \<Rightarrow> 'val \<Rightarrow> ('myctx \<Rightarrow> 'val \<Rightarrow> error + 'val)
    \<Rightarrow> DependencyTicket list option
    \<Rightarrow> ('ctx, 'av, 'z) SystemBase_scheme \<times> (error + ('ctx, 'av) CacheEntry)" where
  "DeclareCacheEntry_model K ticket_first H A s description model_value calc prerequisites_of_calc =
     (case dynamic_cast_this H (MySystem A) s of
        None \<Rightarrow> (s, Inl demand_failure)
      | Some this_ptr \<Rightarrow>
          let owned_model = Make A model_value;
              alloc_callback = (\<lambda>context. Inr (Clone owned_model))
          in DeclareCacheEntry K ticket_first s description alloc_callback (calc_callback A calc)
               (Some (default_prerequisites K prerequisites_of_calc)))"

text \<open>Takes just a \<^verbatim>\<open>calc()\<close> member function, value-initialises the entry.\<close>

definition DeclareCacheEntry_calc ::
  "BuiltInTicketNumbers \<Rightarrow> bool \<Rightarrow> class_hierarchy \<Rightarrow> ('ctx, 'av, 'myctx, 'val) template_arguments
    \<Rightarrow> ('ctx, 'av, 'z) SystemBase_scheme \<Rightarrow> string
    \<Rightarrow> ('myctx \<Rightarrow> 'val \<Rightarrow> error + 'val)
    \<Rightarrow> DependencyTicket list option
    \<Rightarrow> ('ctx, 'av, 'z) SystemBase_scheme \<times> (error + ('ctx, 'av) CacheEntry)" where
  "DeclareCacheEntry_calc K ticket_first H A s description calc prerequisites_of_calc =
     DeclareCacheEntry_model K ticket_first H A s description (ValueType_init A) calc
       (Some (default_prerequisites K prerequisites_of_calc))"

subsection \<open>Names\<close>

definition set_name ::
  "string \<Rightarrow> ('ctx, 'av, 'z) SystemBase_scheme \<Rightarrow> ('ctx, 'av, 'z) SystemBase_scheme" where
  "set_name n s = s\<lparr>name := n\<rparr>"

definition GetSystemName :: "('ctx, 'av, 'z) SystemBase_scheme \<Rightarrow> string" where
  "GetSystemName s = name s"

definition GetSystemType :: "('ctx, 'av, 'z) SystemBase_scheme \<Rightarrow> class_name" where
  "GetSystemType s = system_type s"

subsection \<open>Context validation\<close>

text \<open>
  \<^verbatim>\<open>DoCheckValidContext\<close> is pure virtual: the derived class supplies it, so it
  is a parameter here. It is a \<^verbatim>\<open>const\<close> member taking a \<^verbatim>\<open>const\<close> reference,
  hence a function of the object and the context that yields only success or an
  exception. \<^verbatim>\<open>CheckValidContext\<close> has no statement before the call of the hook
  (only the comment \<^verbatim>\<open>TODO(sherm1) Add base class checks\<close>).
\<close>

type_synonym ('ctx, 'av, 'z) DoCheckValidContext =
  "('ctx, 'av, 'z) SystemBase_scheme \<Rightarrow> 'ctx \<Rightarrow> error + unit"

definition CheckValidContext ::
  "('ctx, 'av, 'z) DoCheckValidContext \<Rightarrow> ('ctx, 'av, 'z) SystemBase_scheme \<Rightarrow> 'ctx
    \<Rightarrow> error + unit" where
  "CheckValidContext DoCheckValidContext s context = DoCheckValidContext s context"

definition ThrowIfContextNotCompatible ::
  "('ctx, 'av, 'z) DoCheckValidContext \<Rightarrow> ('ctx, 'av, 'z) SystemBase_scheme \<Rightarrow> 'ctx
    \<Rightarrow> error + unit" where
  "ThrowIfContextNotCompatible DoCheckValidContext s context =
     CheckValidContext DoCheckValidContext s context"

subsection \<open>Sequences of declarations\<close>

text \<open>
  The arguments of one call of the general form, and a run of such calls on one
  subsystem: the outcome of every call, in order, and the subsystem afterwards.
  A call that throws leaves the run going, as a caller that catches would.
\<close>

record ('ctx, 'av) declare_arguments =
  decl_description :: string
  decl_alloc :: "('ctx, 'av) AllocCallback"
  decl_calc :: "('ctx, 'av) CalcCallback"
  decl_prerequisites :: "DependencyTicket list option"

fun declare_all ::
  "BuiltInTicketNumbers \<Rightarrow> bool \<Rightarrow> ('ctx, 'av, 'z) SystemBase_scheme \<Rightarrow> ('ctx, 'av) declare_arguments list
    \<Rightarrow> ('ctx, 'av, 'z) SystemBase_scheme \<times> (error + ('ctx, 'av) CacheEntry) list" where
  "declare_all K ticket_first s [] = (s, [])"
| "declare_all K ticket_first s (d # ds) =
     (case DeclareCacheEntry K ticket_first s (decl_description d) (decl_alloc d) (decl_calc d)
             (decl_prerequisites d) of
        (s1, r) \<Rightarrow> (case declare_all K ticket_first s1 ds of (s2, rs) \<Rightarrow> (s2, r # rs)))"

text \<open>The entries that the successful calls of a run returned, in order.\<close>

fun declared :: "(error + 'e) list \<Rightarrow> 'e list" where
  "declared [] = []"
| "declared (Inl err # rs) = declared rs"
| "declared (Inr e # rs) = e # declared rs"

text \<open>
  How many tickets a run had drawn before each of its successful calls, counted
  from \<open>n\<close>: a successful call draws one, a rejected call draws one exactly when
  the ticket is drawn first.
\<close>

fun tickets_before :: "bool \<Rightarrow> nat \<Rightarrow> (error + 'e) list \<Rightarrow> nat list" where
  "tickets_before ticket_first n [] = []"
| "tickets_before ticket_first n (Inl err # rs) =
     tickets_before ticket_first (if ticket_first then Suc n else n) rs"
| "tickets_before ticket_first n (Inr e # rs) = n # tickets_before ticket_first (Suc n) rs"

text \<open>The number of tickets that a run has drawn.\<close>

definition tickets_drawn :: "bool \<Rightarrow> (error + 'e) list \<Rightarrow> nat" where
  "tickets_drawn ticket_first rs =
     (if ticket_first then length rs else length (declared rs))"

subsection \<open>Contexts\<close>

text \<open>
  Modelled from the spec: \<^verbatim>\<open>ContextBase\<close> (\<^verbatim>\<open>context_base.h\<close> is missing).
  Section 3: a context "structurally mirrors the subsystem tree" and is "populated
  with per-cache-entry storage slots"; section 4.3 names the structure that a
  context check looks at, "tree shape, entry counts". A context is its number of
  cache slots and its child subcontexts. \<^verbatim>\<open>SystemBase\<close> has no member for child
  subsystems, so a context of matching structure has one slot for every cache
  entry and no subcontext.
\<close>

datatype ContextBase = ContextBase (cache_slots: nat) (subcontexts: "ContextBase list")

definition structure_matches ::
  "('ctx, 'av, 'z) SystemBase_scheme \<Rightarrow> ContextBase \<Rightarrow> bool" where
  "structure_matches s context =
     (cache_slots context = length (cache_entries s) \<and> subcontexts context = [])"

subsection \<open>Sample instances\<close>

text \<open>
  Concrete arguments at which the theorems below are instantiated: a numbering of
  the well-known tickets from 0 to 17 with 18 as the first free number, two classes
  \<open>Base\<close> and \<open>Derived\<close> under \<open>SystemBase\<close> and an unrelated class \<open>Other\<close>,
  template arguments with integers as \<^verbatim>\<open>ValueType\<close> and \<^verbatim>\<open>ContextBase\<close> itself as
  \<^verbatim>\<open>MyContext\<close>, member functions, a subsystem fresh from its constructor, and an
  implementation of \<^verbatim>\<open>DoCheckValidContext\<close> that accepts every context.
\<close>

definition sample_numbers :: BuiltInTicketNumbers where
  "sample_numbers =
     \<lparr>kAllSourcesTicket = 0, kNothingTicket = 1, kTimeTicket = 2, kAccuracyTicket = 3,
      kQTicket = 4, kVTicket = 5, kZTicket = 6, kXcTicket = 7, kXdTicket = 8,
      kXaTicket = 9, kXTicket = 10, kXcdotTicket = 11, kXdhatTicket = 12,
      kConfigurationTicket = 13, kVelocityTicket = 14, kKinematicsTicket = 15,
      kAllParametersTicket = 16, kAllInputPortsTicket = 17,
      kNextAvailableTicket = 18\<rparr>"

definition sample_hierarchy :: class_hierarchy where
  "sample_hierarchy D B =
     (B = D \<or> (B = ''SystemBase'' \<and> D \<in> set [''Base'', ''Derived'', ''Other''])
      \<or> (B = ''Base'' \<and> D = ''Derived''))"

definition sample_arguments :: "(ContextBase, int, ContextBase, int) template_arguments" where
  "sample_arguments =
     \<lparr>MySystem = ''Base'', as_MyContext = Some, Make = (\<lambda>v. v),
      GetMutableValue = Inr, ValueType_init = 0\<rparr>"

definition sample_make :: "ContextBase \<Rightarrow> error + int" where
  "sample_make context = Inr 0"

definition sample_calc :: "ContextBase \<Rightarrow> int \<Rightarrow> error + int" where
  "sample_calc context v = Inr (v + 1)"

definition sample_declare ::
  "DependencyTicket list option \<Rightarrow> (ContextBase, int) declare_arguments" where
  "sample_declare p =
     \<lparr>decl_description = ''e'', decl_alloc = (\<lambda>context. Inr 0),
      decl_calc = calc_callback sample_arguments sample_calc, decl_prerequisites = p\<rparr>"

definition sample_system :: "class_name \<Rightarrow> (ContextBase, int) SystemBase" where
  "sample_system T = SystemBase_default sample_numbers T"

definition accept_every_context :: "('ctx, 'av, 'z) DoCheckValidContext" where
  "accept_every_context s context = Inr ()"

section \<open>Auxiliary lemmas\<close>

subsection \<open>Tickets as integers\<close>

lemma issue_tickets_eq:
  "issue_tickets n s =
     (map (\<lambda>i. next_available_ticket s + word_of_nat i) [0..<n],
      s\<lparr>next_available_ticket := next_available_ticket s + word_of_nat n\<rparr>)"
proof (induction n arbitrary: s)
  case 0
  show ?case by simp
next
  case (Suc n)
  have "[0..<Suc n] = 0 # map Suc [0..<n]"
    by (simp only: upt_conv_Cons [OF zero_less_Suc] map_Suc_upt)
  then show ?case
    by (simp add: Suc assign_next_dependency_ticket_def add.assoc add.commute del: upt_Suc)
qed

lemma sint_ticket_offset:
  fixes t :: "32 word"
  assumes "0 \<le> sint t" and "sint t + int i < 2 ^ 31"
  shows "sint (t + word_of_nat i) = sint t + int i"
proof -
  have i: "int i < 2 ^ 31" using assms by linarith
  have "sint (word_of_nat i :: 32 word) = int i"
    using i by (simp add: signed_of_nat signed_take_bit_int_eq_self)
  then show ?thesis
    using assms by (simp add: sint_word_ariths signed_take_bit_int_eq_self)
qed

lemma seeded_after_well_known_nonneg:
  assumes "seeded_after_well_known K"
  shows "0 \<le> sint (kNextAvailableTicket K)"
proof -
  from assms obtain w where "w \<in> set (well_known_tickets K)"
      and "sint w + 1 = sint (kNextAvailableTicket K)"
    by (auto simp: seeded_after_well_known_def list_ex_iff)
  moreover from this assms have "0 \<le> sint w"
    by (auto simp: seeded_after_well_known_def list_all_iff)
  ultimately show ?thesis by linarith
qed

subsection \<open>The declaration forms\<close>

lemma default_prerequisites_simps:
  "default_prerequisites K None = [all_sources_ticket K]"
  "default_prerequisites K (Some ps) = ps"
  by (simp_all add: default_prerequisites_def)

lemma DeclareCacheEntry_empty:
  "DeclareCacheEntry K F s d a c (Some []) =
     (if F then s\<lparr>next_available_ticket := next_available_ticket s + 1\<rparr> else s,
      Inl logic_error)"
  by (simp add: DeclareCacheEntry_def default_prerequisites_simps
      assign_next_dependency_ticket_def)


lemma DeclareCacheEntry_failure_state:
  "snd (DeclareCacheEntry K F s d a c p) = Inl err \<Longrightarrow>
   fst (DeclareCacheEntry K F s d a c p) =
     (if F then s\<lparr>next_available_ticket := next_available_ticket s + 1\<rparr> else s)"
  by (simp add: DeclareCacheEntry_def Let_def split_def assign_next_dependency_ticket_def
      split: if_splits)

lemma DeclareCacheEntry_make_cast:
  "DeclareCacheEntry_make K F H A s d mk calc p =
     (if H (system_type s) (MySystem A)
      then DeclareCacheEntry K F s d
        (\<lambda>context. case as_MyContext A context of None \<Rightarrow> Inl bad_cast
           | Some typed_context \<Rightarrow> (case mk typed_context of Inl e \<Rightarrow> Inl e | Inr v \<Rightarrow> Inr (Make A v)))
        (calc_callback A calc) (Some (default_prerequisites K p))
      else (s, Inl demand_failure))"
  by (simp add: DeclareCacheEntry_make_def dynamic_cast_this_def)

lemma DeclareCacheEntry_model_cast:
  "DeclareCacheEntry_model K F H A s d mv calc p =
     (if H (system_type s) (MySystem A)
      then DeclareCacheEntry K F s d (\<lambda>context. Inr (Clone (Make A mv)))
        (calc_callback A calc) (Some (default_prerequisites K p))
      else (s, Inl demand_failure))"
  by (simp add: DeclareCacheEntry_model_def dynamic_cast_this_def)

lemma DeclareCacheEntry_calc_cast:
  "DeclareCacheEntry_calc K F H A s d calc p =
     (if H (system_type s) (MySystem A)
      then DeclareCacheEntry K F s d (\<lambda>context. Inr (Clone (Make A (ValueType_init A))))
        (calc_callback A calc) (Some (default_prerequisites K p))
      else (s, Inl demand_failure))"
  by (simp add: DeclareCacheEntry_calc_def DeclareCacheEntry_model_cast default_prerequisites_simps)

lemma DeclareCacheEntry_Inr:
  assumes "DeclareCacheEntry K F s d a c p = (s', Inr e)"
  shows "e = \<lparr>cache_index = num_cache_entries s, ticket = next_available_ticket s,
              entry_description = d, Alloc = a, Calc = c,
              prerequisites = default_prerequisites K p\<rparr>"
    and "s' = s\<lparr>next_available_ticket := next_available_ticket s + 1,
               cache_entries := cache_entries s @ [e]\<rparr>"
  using assms
  by (auto simp: DeclareCacheEntry_def Let_def assign_next_dependency_ticket_def
      split: if_splits)

lemma DeclareCacheEntry_accepts:
  assumes "ps \<noteq> []" and "nothing_ticket K \<in> set ps \<longrightarrow> length ps = 1"
  shows "DeclareCacheEntry K F s d a c (Some ps) =
     (s\<lparr>next_available_ticket := next_available_ticket s + 1,
        cache_entries := cache_entries s @
          [\<lparr>cache_index = num_cache_entries s, ticket = next_available_ticket s,
            entry_description = d, Alloc = a, Calc = c, prerequisites = ps\<rparr>]\<rparr>,
      Inr \<lparr>cache_index = num_cache_entries s, ticket = next_available_ticket s,
            entry_description = d, Alloc = a, Calc = c, prerequisites = ps\<rparr>)"
  using assms
  by (auto simp: DeclareCacheEntry_def Let_def assign_next_dependency_ticket_def
      default_prerequisites_simps)

lemma DeclareCacheEntry_None:
  "DeclareCacheEntry K F s d a c None = DeclareCacheEntry K F s d a c (Some [all_sources_ticket K])"
  by (simp add: DeclareCacheEntry_def default_prerequisites_simps)

lemma sint_word_of_nat_32:
  "n < 2 ^ 31 \<Longrightarrow> sint (word_of_nat n :: 32 word) = int n"
  by (simp add: signed_of_nat signed_take_bit_int_eq_self)

lemma sint_word_of_nat_le:
  "sint (word_of_nat n :: 32 word) \<le> int n"
  by (simp add: signed_of_nat signed_take_bit_int_less_eq_self_iff)

lemma cache_entry_ticket_in_range:
  assumes "0 \<le> sint index" and "sint index < sint (num_cache_entries s)"
  shows "nat (sint index) < length (cache_entries s)"
    and "cache_entry_ticket s index = Inr (ticket (cache_entries s ! nat (sint index)))"
proof -
  have "sint (num_cache_entries s) \<le> int (length (cache_entries s))"
    unfolding num_cache_entries_def by (rule sint_word_of_nat_le)
  with assms show "nat (sint index) < length (cache_entries s)" by linarith
  show "cache_entry_ticket s index = Inr (ticket (cache_entries s ! nat (sint index)))"
    using assms by (simp add: cache_entry_ticket_def)
qed

lemma cache_entry_ticket_of_nat:
  assumes "i < length (cache_entries s)" and "length (cache_entries s) < 2 ^ 31"
  shows "cache_entry_ticket s (word_of_nat i) = Inr (ticket (cache_entries s ! i))"
proof -
  have "i < 2 ^ 31" using assms by linarith
  then have "sint (word_of_nat i :: 32 word) = int i"
    by (rule sint_word_of_nat_32)
  moreover have "sint (num_cache_entries s) = int (length (cache_entries s))"
    unfolding num_cache_entries_def using assms(2) by (rule sint_word_of_nat_32)
  ultimately show ?thesis
    using assms(1) by (simp add: cache_entry_ticket_def)
qed

lemma word_of_nat_inj_32:
  assumes "i < 2 ^ 31" and "j < 2 ^ 31"
    and "(word_of_nat i :: 32 word) = word_of_nat j"
  shows "i = j"
proof -
  have "int i = sint (word_of_nat i :: 32 word)"
    using assms(1) by (simp add: sint_word_of_nat_32)
  also have "\<dots> = sint (word_of_nat j :: 32 word)"
    by (simp add: assms(3))
  also have "\<dots> = int j"
    using assms(2) by (simp add: sint_word_of_nat_32)
  finally show ?thesis by simp
qed

lemma distinct_numbered:
  fixes f :: "'e \<Rightarrow> 32 word"
  assumes "length es < 2 ^ 31" and "\<forall>i < length es. f (es ! i) = k + word_of_nat i"
  shows "distinct (map f es)"
  unfolding distinct_conv_nth
proof (intro allI impI)
  fix i j
  assume i: "i < length (map f es)" and j: "j < length (map f es)" and ne: "i \<noteq> j"
  show "map f es ! i \<noteq> map f es ! j"
  proof
    assume "map f es ! i = map f es ! j"
    with i j assms(2) have "(word_of_nat i :: 32 word) = word_of_nat j"
      by simp
    moreover from i j assms(1) have "i < 2 ^ 31" "j < 2 ^ 31"
      by simp_all
    ultimately have "i = j"
      by (rule word_of_nat_inj_32 [rotated 2])
    with ne show False by simp
  qed
qed

lemma length_tickets_before:
  "length (tickets_before F n rs) = length (declared rs)"
  by (induction F n rs rule: tickets_before.induct) simp_all

lemma tickets_before_Suc:
  "tickets_before F (Suc n) rs = map Suc (tickets_before F n rs)"
proof (induction rs arbitrary: n)
  case Nil
  show ?case by simp
next
  case (Cons r rs)
  show ?case using Cons.IH by (cases r; cases F) simp_all
qed

lemma tickets_before_checked_first:
  "tickets_before False n rs = [n..<n + length (declared rs)]"
proof (induction rs arbitrary: n)
  case Nil
  show ?case by simp
next
  case (Cons r rs)
  show ?case
  proof (cases r)
    case (Inl err)
    then show ?thesis by (simp add: Cons.IH)
  next
    case (Inr e)
    have "[n..<n + Suc (length (declared rs))] = n # [Suc n..<n + Suc (length (declared rs))]"
      by (rule upt_conv_Cons) simp
    then show ?thesis by (simp add: Inr Cons.IH del: upt_Suc)
  qed
qed

lemma tickets_before_bounds:
  "x \<in> set (tickets_before F n rs) \<Longrightarrow> n \<le> x \<and> x < n + tickets_drawn F rs"
proof (induction F n rs rule: tickets_before.induct)
  case (1 F n)
  then show ?case by simp
next
  case (2 F n err rs)
  then show ?case by (auto simp: tickets_drawn_def split: if_splits)
next
  case (3 F n e rs)
  then show ?case by (auto simp: tickets_drawn_def split: if_splits)
qed

lemma distinct_tickets_before: "distinct (tickets_before F n rs)"
proof (induction F n rs rule: tickets_before.induct)
  case (1 F n)
  show ?case by simp
next
  case (2 F n err rs)
  then show ?case by simp
next
  case (3 F n e rs)
  have "n \<notin> set (tickets_before F (Suc n) rs)"
    using tickets_before_bounds [of n F "Suc n" rs] by auto
  with 3 show ?case by simp
qed

lemma distinct_offsets:
  fixes f :: "'e \<Rightarrow> 32 word"
  assumes "length os = length es" and "distinct os" and "\<forall>x \<in> set os. x < 2 ^ 31"
    and "\<forall>i < length es. f (es ! i) = k + word_of_nat (os ! i)"
  shows "distinct (map f es)"
  unfolding distinct_conv_nth
proof (intro allI impI)
  fix i j
  assume i: "i < length (map f es)" and j: "j < length (map f es)" and ne: "i \<noteq> j"
  show "map f es ! i \<noteq> map f es ! j"
  proof
    assume "map f es ! i = map f es ! j"
    with i j assms(4) have "(word_of_nat (os ! i) :: 32 word) = word_of_nat (os ! j)"
      by simp
    moreover from i j assms(1,3) have "os ! i < 2 ^ 31" "os ! j < 2 ^ 31"
      by simp_all
    ultimately have "os ! i = os ! j"
      by (rule word_of_nat_inj_32 [rotated 2])
    with i j ne assms(1,2) show False
      by (simp add: distinct_conv_nth)
  qed
qed

lemma declare_all_run:
  assumes "declare_all K F s ds = (s', rs)"
  shows "cache_entries s' = cache_entries s @ declared rs
    \<and> next_available_ticket s' = next_available_ticket s + word_of_nat (tickets_drawn F rs)
    \<and> (\<forall>i < length (declared rs).
          cache_index (declared rs ! i) = word_of_nat (length (cache_entries s) + i)
          \<and> ticket (declared rs ! i) =
              next_available_ticket s + word_of_nat (tickets_before F 0 rs ! i))"
  using assms
proof (induction ds arbitrary: s s' rs)
  case Nil
  then show ?case by (simp add: tickets_drawn_def)
next
  case (Cons d ds)
  obtain s1 r where step:
    "DeclareCacheEntry K F s (decl_description d) (decl_alloc d) (decl_calc d)
       (decl_prerequisites d) = (s1, r)"
    by (cases "DeclareCacheEntry K F s (decl_description d) (decl_alloc d) (decl_calc d)
       (decl_prerequisites d)")
  obtain s2 rs2 where rest: "declare_all K F s1 ds = (s2, rs2)"
    by (cases "declare_all K F s1 ds")
  from Cons.prems step rest have s': "s' = s2" and rs: "rs = r # rs2"
    by simp_all
  note IH = Cons.IH [OF rest]
  show ?case
  proof (cases r)
    case (Inl err)
    with step have s1: "s1 = (if F then s\<lparr>next_available_ticket := next_available_ticket s + 1\<rparr>
        else s)"
      using DeclareCacheEntry_failure_state [of K F s "decl_description d" "decl_alloc d"
          "decl_calc d" "decl_prerequisites d" err]
      by simp
    show ?thesis
    proof (cases F)
      case True
      with s1 have "cache_entries s1 = cache_entries s"
        "next_available_ticket s1 = next_available_ticket s + 1"
        by simp_all
      with IH Inl True show ?thesis
        by (simp add: s' rs tickets_drawn_def tickets_before_Suc length_tickets_before
            add.assoc)
    next
      case False
      with s1 have "s1 = s" by simp
      with IH Inl False show ?thesis
        by (simp add: s' rs tickets_drawn_def)
    qed
  next
    case (Inr e)
    note e = DeclareCacheEntry_Inr [OF step [unfolded Inr]]
    have s1: "cache_entries s1 = cache_entries s @ [e]"
      "next_available_ticket s1 = next_available_ticket s + 1"
      by (subst e(2), simp)+
    have e_fields: "cache_index e = word_of_nat (length (cache_entries s))"
      "ticket e = next_available_ticket s"
      by (subst e(1), simp add: num_cache_entries_def)+
    have drawn: "tickets_drawn F rs = Suc (tickets_drawn F rs2)"
      by (simp add: rs Inr tickets_drawn_def)
    show ?thesis
    proof (intro conjI allI impI)
      show "cache_entries s' = cache_entries s @ declared rs"
        using IH by (simp add: s' rs Inr s1)
      show "next_available_ticket s' =
          next_available_ticket s + word_of_nat (tickets_drawn F rs)"
        using IH by (simp add: s' drawn s1 add.assoc)
    next
      fix i assume i: "i < length (declared rs)"
      show "cache_index (declared rs ! i) = word_of_nat (length (cache_entries s) + i)"
      proof (cases i)
        case 0
        then show ?thesis by (simp add: rs Inr e_fields)
      next
        case (Suc j)
        with i have "j < length (declared rs2)" by (simp add: rs Inr)
        with IH show ?thesis by (simp add: rs Inr Suc s1)
      qed
      show "ticket (declared rs ! i) =
          next_available_ticket s + word_of_nat (tickets_before F 0 rs ! i)"
      proof (cases i)
        case 0
        then show ?thesis by (simp add: rs Inr e_fields)
      next
        case (Suc j)
        with i have "j < length (declared rs2)" by (simp add: rs Inr)
        with IH show ?thesis
          by (simp add: rs Inr Suc s1 add.assoc tickets_before_Suc length_tickets_before)
      qed
    qed
  qed
qed

lemma member_form_reaches_general:
  "DeclareCacheEntry_make K F H A s d mk calc p = (s', Inr e)
    \<Longrightarrow> \<exists>a c q. DeclareCacheEntry K F s d a c q = (s', Inr e)"
  "DeclareCacheEntry_model K F H A s d mv calc p = (s', Inr e)
    \<Longrightarrow> \<exists>a c q. DeclareCacheEntry K F s d a c q = (s', Inr e)"
  "DeclareCacheEntry_calc K F H A s d calc p = (s', Inr e)
    \<Longrightarrow> \<exists>a c q. DeclareCacheEntry K F s d a c q = (s', Inr e)"
  by (auto simp: DeclareCacheEntry_make_cast DeclareCacheEntry_model_cast
      DeclareCacheEntry_calc_cast split: if_splits)

lemma DeclareCacheEntry_calc_eq_model:
  "DeclareCacheEntry_calc K F H A s d calc p =
     DeclareCacheEntry_model K F H A s d (ValueType_init A) calc p"
  by (simp add: DeclareCacheEntry_calc_cast DeclareCacheEntry_model_cast)

subsection \<open>The sample instances\<close>

lemma sample_cast_ok:
  "sample_hierarchy (system_type (sample_system ''Derived'')) (MySystem sample_arguments)"
  by (simp add: sample_hierarchy_def sample_system_def SystemBase_default_def
      sample_arguments_def)

lemma sample_cast_fails:
  "\<not> sample_hierarchy (system_type (sample_system ''Other'')) (MySystem sample_arguments)"
  by (simp add: sample_hierarchy_def sample_system_def SystemBase_default_def
      sample_arguments_def)

lemma sample_tickets:
  "all_sources_ticket sample_numbers = 0"
  "nothing_ticket sample_numbers = 1"
  "time_ticket sample_numbers = 2"
  "kNextAvailableTicket sample_numbers = 18"
  by (simp_all add: sample_numbers_def all_sources_ticket_def nothing_ticket_def
      time_ticket_def)

lemma sample_seeded: "seeded_after_well_known sample_numbers"
  by (simp add: seeded_after_well_known_def well_known_tickets_def sample_numbers_def
      all_sources_ticket_def nothing_ticket_def time_ticket_def accuracy_ticket_def
      q_ticket_def v_ticket_def z_ticket_def xc_ticket_def xd_ticket_def xa_ticket_def
      all_state_ticket_def xcdot_ticket_def xdhat_ticket_def configuration_ticket_def
      velocity_ticket_def kinematics_ticket_def all_parameters_ticket_def
      all_input_ports_ticket_def)

section \<open>Properties\<close>




text \<open>
  C2. One issuance returns the current value of the counter and adds exactly one to
  it. The counter of a new subsystem starts at \<^verbatim>\<open>kNextAvailableTicket\<close>, so
  the tickets of \<open>n\<close> issuances are that number, the next one, and so on: as
  integers they are strictly increasing, none is repeated, all lie above every
  well-known ticket, and the first one is the successor of a well-known ticket.
  The hypotheses: the numbering places \<^verbatim>\<open>kNextAvailableTicket\<close> right after
  the last well-known ticket, and the \<open>n\<close> increments stay within the range of a
  C++ \<^verbatim>\<open>int\<close> (beyond it signed overflow is undefined behaviour).
\<close>

theorem tickets_issued_in_sequence:
  assumes seed: "seeded_after_well_known K"
    and range: "sint (kNextAvailableTicket K) + int n < 2 ^ 31"
  shows "fst (assign_next_dependency_ticket s) = next_available_ticket s
    \<and> snd (assign_next_dependency_ticket s) =
        s\<lparr>next_available_ticket := next_available_ticket s + 1\<rparr>
    \<and> next_available_ticket (SystemBase_default K T :: ('ctx, 'av) SystemBase) = kNextAvailableTicket K
    \<and> fst (issue_tickets n (SystemBase_default K T :: ('ctx, 'av) SystemBase)) =
        map (\<lambda>i. kNextAvailableTicket K + word_of_nat i) [0..<n]
    \<and> map sint (fst (issue_tickets n (SystemBase_default K T :: ('ctx, 'av) SystemBase))) =
        map (\<lambda>i. sint (kNextAvailableTicket K) + int i) [0..<n]
    \<and> sorted_wrt (\<lambda>a b. sint a < sint b) (fst (issue_tickets n (SystemBase_default K T :: ('ctx, 'av) SystemBase)))
    \<and> distinct (fst (issue_tickets n (SystemBase_default K T :: ('ctx, 'av) SystemBase)))
    \<and> (\<forall>t \<in> set (fst (issue_tickets n (SystemBase_default K T :: ('ctx, 'av) SystemBase))).
         \<forall>w \<in> set (well_known_tickets K). sint w < sint t)
    \<and> (\<exists>w \<in> set (well_known_tickets K). sint w + 1 = sint (kNextAvailableTicket K))"
proof -
  let ?k = "kNextAvailableTicket K"
  let ?ts = "fst (issue_tickets n (SystemBase_default K T :: ('ctx, 'av) SystemBase))"
  have nonneg: "0 \<le> sint ?k"
    by (rule seeded_after_well_known_nonneg [OF seed])
  have ts: "?ts = map (\<lambda>i. ?k + word_of_nat i) [0..<n]"
    by (simp add: issue_tickets_eq SystemBase_default_def)
  have len: "length ?ts = n"
    by (simp add: ts)
  have val: "sint (?ts ! i) = sint ?k + int i" if "i < n" for i
    using that nonneg range by (simp add: ts sint_ticket_offset)
  have ints: "map sint ?ts = map (\<lambda>i. sint ?k + int i) [0..<n]"
    by (rule nth_equalityI) (simp_all add: len val)
  have incr: "sorted_wrt (\<lambda>a b. sint a < sint b) ?ts"
    unfolding sorted_wrt_iff_nth_less by (simp add: len val)
  have dist: "distinct ?ts"
    unfolding distinct_conv_nth
  proof (intro allI impI)
    fix i j
    assume "i < length ?ts" "j < length ?ts" "i \<noteq> j"
    then have "sint (?ts ! i) \<noteq> sint (?ts ! j)"
      by (simp add: len val)
    then show "?ts ! i \<noteq> ?ts ! j" by auto
  qed
  have past: "\<forall>t \<in> set ?ts. \<forall>w \<in> set (well_known_tickets K). sint w < sint t"
  proof (intro ballI)
    fix t w
    assume "t \<in> set ?ts" and w: "w \<in> set (well_known_tickets K)"
    then obtain i where "i < n" "t = ?ts ! i"
      by (auto simp: in_set_conv_nth len)
    then have "sint ?k \<le> sint t" by (simp add: val)
    moreover have "sint w < sint ?k"
      using seed w by (auto simp: seeded_after_well_known_def list_all_iff)
    ultimately show "sint w < sint t" by linarith
  qed
  have first: "\<exists>w \<in> set (well_known_tickets K). sint w + 1 = sint ?k"
    using seed by (auto simp: seeded_after_well_known_def list_ex_iff)
  show ?thesis
    using ts ints incr dist past first
    by (simp add: assign_next_dependency_ticket_def SystemBase_default_def)
qed

theorem tickets_issued_in_sequence_witness:
  "seeded_after_well_known sample_numbers
   \<and> sint (kNextAvailableTicket sample_numbers) + int 3 < 2 ^ 31
   \<and> map sint (fst (issue_tickets 3 (sample_system ''Base''))) = [18, 19, 20]
   \<and> distinct (fst (issue_tickets 3 (sample_system ''Base'')))"
proof -
  have range: "sint (kNextAvailableTicket sample_numbers) + int 3 < 2 ^ 31"
    by (simp add: sample_tickets)
  have "[0..<3] = [0, 1, 2]"
    by (simp add: upt_rec)
  then show ?thesis
    using range tickets_issued_in_sequence [OF sample_seeded range, where T = "''Base''"
        and 'ctx = ContextBase and 'av = int and s = "sample_system ''Base''"]
    by (simp add: sample_tickets sample_system_def sample_seeded)
qed

text \<open>
  C3. A successful \<^verbatim>\<open>DeclareCacheEntry\<close>, of any of the four forms, appends
  exactly the returned entry to the table and adds one to the ticket counter: \<^verbatim>\<open>num_cache_entries()\<close> grows by
  one, the index of the new entry is the previous count, its ticket the previous
  value of the counter, the entries declared before (and every other member) are
  unchanged, and \<^verbatim>\<open>cache_entry_ticket(index)\<close> returns, for every index with
  \<open>0 \<le> index < num_cache_entries()\<close>, the ticket of the entry at that position.
  Over a whole run of declarations on a new subsystem: the table is the list of
  the entries that the successful calls returned, the \<open>i\<close>-th of them has index
  \<open>i\<close>, and \<^verbatim>\<open>cache_entry_ticket(i)\<close> returns its ticket (the table being
  shorter than \<open>2^31\<close>, so that the count fits an \<^verbatim>\<open>int\<close>). Its ticket is the
  seed plus the number of tickets drawn before it: the \<open>i\<close>-th ticket after the
  seed where a rejected call draws none. No index and no ticket is used twice.
\<close>

theorem DeclareCacheEntry_appends_one_entry:
  "(DeclareCacheEntry K F s d a c p = (s', Inr e)
      \<or> DeclareCacheEntry_make K F H A s d mk calc p = (s', Inr e)
      \<or> DeclareCacheEntry_model K F H A s d mv calc p = (s', Inr e)
      \<or> DeclareCacheEntry_calc K F H A s d calc p = (s', Inr e) \<longrightarrow>
      cache_entries s' = cache_entries s @ [e]
      \<and> next_available_ticket s' = next_available_ticket s + 1
      \<and> num_cache_entries s' = num_cache_entries s + 1
      \<and> cache_index e = num_cache_entries s
      \<and> ticket e = next_available_ticket s
      \<and> take (length (cache_entries s)) (cache_entries s') = cache_entries s
      \<and> name s' = name s \<and> system_type s' = system_type s
      \<and> SystemBase.more s' = SystemBase.more s
      \<and> (\<forall>index. 0 \<le> sint index \<and> sint index < sint (num_cache_entries s') \<longrightarrow>
            nat (sint index) < length (cache_entries s')
            \<and> cache_entry_ticket s' index =
                Inr (ticket ((cache_entries s @ [e]) ! nat (sint index)))))
   \<and> (declare_all K F (SystemBase_default K T) ds = (sf, rs) \<longrightarrow>
        cache_entries sf = declared rs
        \<and> next_available_ticket sf =
            kNextAvailableTicket K + word_of_nat (tickets_drawn F rs)
        \<and> (\<not> F \<longrightarrow> next_available_ticket sf =
            kNextAvailableTicket K + word_of_nat (length (declared rs)))
        \<and> (\<forall>i < length (declared rs).
              cache_index (declared rs ! i) = word_of_nat i
              \<and> ticket (declared rs ! i) =
                  kNextAvailableTicket K + word_of_nat (tickets_before F 0 rs ! i)
              \<and> (\<not> F \<longrightarrow>
                   ticket (declared rs ! i) = kNextAvailableTicket K + word_of_nat i)
              \<and> (length (declared rs) < 2 ^ 31 \<longrightarrow>
                   cache_entry_ticket sf (word_of_nat i) = Inr (ticket (declared rs ! i))))
        \<and> (length (declared rs) < 2 ^ 31 \<longrightarrow>
             distinct (map cache_index (declared rs)))
        \<and> (tickets_drawn F rs < 2 ^ 31 \<longrightarrow>
             distinct (map ticket (declared rs))))"
proof (intro conjI impI)
  assume "DeclareCacheEntry K F s d a c p = (s', Inr e)
      \<or> DeclareCacheEntry_make K F H A s d mk calc p = (s', Inr e)
      \<or> DeclareCacheEntry_model K F H A s d mv calc p = (s', Inr e)
      \<or> DeclareCacheEntry_calc K F H A s d calc p = (s', Inr e)"
  then have "\<exists>a c q. DeclareCacheEntry K F s d a c q = (s', Inr e)"
  proof (elim disjE)
    assume "DeclareCacheEntry K F s d a c p = (s', Inr e)"
    then show ?thesis by (intro exI)
  next
    assume "DeclareCacheEntry_make K F H A s d mk calc p = (s', Inr e)"
    then show ?thesis by (rule member_form_reaches_general(1))
  next
    assume "DeclareCacheEntry_model K F H A s d mv calc p = (s', Inr e)"
    then show ?thesis by (rule member_form_reaches_general(2))
  next
    assume "DeclareCacheEntry_calc K F H A s d calc p = (s', Inr e)"
    then show ?thesis by (rule member_form_reaches_general(3))
  qed
  then obtain a' c' q where step: "DeclareCacheEntry K F s d a' c' q = (s', Inr e)"
    by (elim exE)
  note e = DeclareCacheEntry_Inr [OF step]
  show entries: "cache_entries s' = cache_entries s @ [e]"
    by (subst e(2)) simp
  show "next_available_ticket s' = next_available_ticket s + 1"
    by (subst e(2)) simp
  show "num_cache_entries s' = num_cache_entries s + 1"
    by (simp add: num_cache_entries_def entries)
  show "cache_index e = num_cache_entries s"
    by (subst e(1)) simp
  show "ticket e = next_available_ticket s"
    by (subst e(1)) simp
  show "take (length (cache_entries s)) (cache_entries s') = cache_entries s"
    by (simp add: entries)
  show "name s' = name s"
    by (subst e(2)) simp
  show "system_type s' = system_type s"
    by (subst e(2)) simp
  show "SystemBase.more s' = SystemBase.more s"
    by (subst e(2)) simp
  show "\<forall>index. 0 \<le> sint index \<and> sint index < sint (num_cache_entries s') \<longrightarrow>
      nat (sint index) < length (cache_entries s')
      \<and> cache_entry_ticket s' index =
          Inr (ticket ((cache_entries s @ [e]) ! nat (sint index)))"
    using cache_entry_ticket_in_range [of _ s'] by (simp add: entries)
next
  assume run: "declare_all K F (SystemBase_default K T) ds = (sf, rs)"
  note facts = declare_all_run [OF run]
  show entries: "cache_entries sf = declared rs"
    using facts by (simp add: SystemBase_default_def)
  show "next_available_ticket sf =
      kNextAvailableTicket K + word_of_nat (tickets_drawn F rs)"
    using facts by (simp add: SystemBase_default_def)
  show "next_available_ticket sf =
      kNextAvailableTicket K + word_of_nat (length (declared rs))" if "\<not> F"
    using facts that by (simp add: SystemBase_default_def tickets_drawn_def)
  show "\<forall>i < length (declared rs).
      cache_index (declared rs ! i) = word_of_nat i
      \<and> ticket (declared rs ! i) =
          kNextAvailableTicket K + word_of_nat (tickets_before F 0 rs ! i)
      \<and> (\<not> F \<longrightarrow> ticket (declared rs ! i) = kNextAvailableTicket K + word_of_nat i)
      \<and> (length (declared rs) < 2 ^ 31 \<longrightarrow>
           cache_entry_ticket sf (word_of_nat i) = Inr (ticket (declared rs ! i)))"
  proof (intro allI impI conjI)
    fix i assume i: "i < length (declared rs)"
    from facts i show "cache_index (declared rs ! i) = word_of_nat i"
      by (simp add: SystemBase_default_def)
    from facts i show offset: "ticket (declared rs ! i) =
        kNextAvailableTicket K + word_of_nat (tickets_before F 0 rs ! i)"
      by (simp add: SystemBase_default_def)
    show "ticket (declared rs ! i) = kNextAvailableTicket K + word_of_nat i" if "\<not> F"
      using offset that i by (simp add: tickets_before_checked_first)
    assume "length (declared rs) < 2 ^ 31"
    with i show "cache_entry_ticket sf (word_of_nat i) = Inr (ticket (declared rs ! i))"
      using cache_entry_ticket_of_nat [of i sf] by (simp add: entries)
  qed
  show "distinct (map cache_index (declared rs))" if "length (declared rs) < 2 ^ 31"
    using that facts
    by (intro distinct_numbered [where k = 0]) (simp_all add: SystemBase_default_def)
  show "distinct (map ticket (declared rs))" if small: "tickets_drawn F rs < 2 ^ 31"
  proof (rule distinct_offsets [where os = "tickets_before F 0 rs"
        and k = "kNextAvailableTicket K"])
    show "length (tickets_before F 0 rs) = length (declared rs)"
      by (rule length_tickets_before)
    show "distinct (tickets_before F 0 rs)"
      by (rule distinct_tickets_before)
    show "\<forall>x \<in> set (tickets_before F 0 rs). x < 2 ^ 31"
      using tickets_before_bounds [of _ F 0 rs] small by fastforce
    show "\<forall>i < length (declared rs). ticket (declared rs ! i) =
        kNextAvailableTicket K + word_of_nat (tickets_before F 0 rs ! i)"
      using facts by (simp add: SystemBase_default_def)
  qed
qed

theorem DeclareCacheEntry_appends_one_entry_witness:
  "(\<exists>s' e. DeclareCacheEntry sample_numbers False (sample_system ''Base'') ''e''
        (\<lambda>context. Inr 0) (calc_callback sample_arguments sample_calc) None = (s', Inr e)
      \<and> cache_entries s' = [e] \<and> cache_index e = 0 \<and> ticket e = 18
      \<and> next_available_ticket s' = 19 \<and> num_cache_entries s' = 1
      \<and> cache_entry_ticket s' 0 = Inr 18)
   \<and> (\<exists>s2 e1 e2. declare_all sample_numbers False (sample_system ''Base'')
        [sample_declare None, sample_declare (Some []), sample_declare None]
          = (s2, [Inr e1, Inl logic_error, Inr e2])
      \<and> cache_entries s2 = [e1, e2] \<and> ticket e1 = 18 \<and> ticket e2 = 19
      \<and> cache_index e2 = 1 \<and> cache_entry_ticket s2 1 = Inr 19)
   \<and> (\<exists>s2 e1 e2. declare_all sample_numbers True (sample_system ''Base'')
        [sample_declare None, sample_declare (Some []), sample_declare None]
          = (s2, [Inr e1, Inl logic_error, Inr e2])
      \<and> cache_entries s2 = [e1, e2] \<and> ticket e1 = 18 \<and> ticket e2 = 20
      \<and> cache_index e2 = 1 \<and> cache_entry_ticket s2 1 = Inr 20
      \<and> next_available_ticket s2 = 21)"
proof (intro conjI)
  let ?s = "sample_system ''Base''"
  let ?a = "\<lambda>context::ContextBase. Inr 0 :: error + int"
  let ?c = "calc_callback sample_arguments sample_calc"
  obtain s' e where step: "DeclareCacheEntry sample_numbers False ?s ''e'' ?a ?c None = (s', Inr e)"
    by (simp add: DeclareCacheEntry_None DeclareCacheEntry_accepts)
  have s: "cache_entries ?s = []" "next_available_ticket ?s = 18" "num_cache_entries ?s = 0"
    by (simp_all add: sample_system_def SystemBase_default_def sample_tickets
        num_cache_entries_def)
  note facts = DeclareCacheEntry_appends_one_entry [where K = sample_numbers and F = False and s = ?s
      and d = "''e''" and a = ?a and c = ?c and p = None and s' = s' and e = e,
      THEN conjunct1, rule_format, OF disjI1, OF step]
  have num: "num_cache_entries s' = 1"
    using facts by (simp add: s)
  have "0 \<le> sint (0 :: 32 word) \<and> sint (0 :: 32 word) < sint (num_cache_entries s')"
    by (simp add: num)
  with facts have "cache_entry_ticket s' 0 = Inr (ticket ((cache_entries ?s @ [e]) ! nat (sint (0 :: 32 word))))"
    by blast
  with facts have "cache_entry_ticket s' 0 = Inr 18"
    by (simp add: s)
  with facts num step show "\<exists>s' e. DeclareCacheEntry sample_numbers False ?s ''e'' ?a ?c None = (s', Inr e)
      \<and> cache_entries s' = [e] \<and> cache_index e = 0 \<and> ticket e = 18
      \<and> next_available_ticket s' = 19 \<and> num_cache_entries s' = 1
      \<and> cache_entry_ticket s' 0 = Inr 18"
    by (auto simp: s)
next
  let ?ds = "[sample_declare None, sample_declare (Some []), sample_declare None]"
  obtain s2 e1 e2 where run: "declare_all sample_numbers False (sample_system ''Base'') ?ds
      = (s2, [Inr e1, Inl logic_error, Inr e2])"
    by (simp add: sample_declare_def DeclareCacheEntry_None DeclareCacheEntry_accepts
        DeclareCacheEntry_empty)
  note facts = DeclareCacheEntry_appends_one_entry [where K = sample_numbers and F = False
      and T = "''Base''" and ds = ?ds and sf = s2 and rs = "[Inr e1, Inl logic_error, Inr e2]",
      THEN conjunct2, rule_format, OF run [unfolded sample_system_def]]
  have entries: "cache_entries s2 = [e1, e2]"
    using facts by simp
  have each: "cache_index ([e1, e2] ! i) = word_of_nat i
      \<and> ticket ([e1, e2] ! i) = 18 + word_of_nat i
      \<and> cache_entry_ticket s2 (word_of_nat i) = Inr (ticket ([e1, e2] ! i))"
    if "i < 2" for i
    using facts less_2_cases [OF that] by (auto simp: sample_tickets)
  have "ticket e1 = 18" "ticket e2 = 19" "cache_index e2 = 1"
    "cache_entry_ticket s2 1 = Inr 19"
    using each [of 0] each [of 1] by simp_all
  then show "\<exists>s2 e1 e2. declare_all sample_numbers False (sample_system ''Base'') ?ds
        = (s2, [Inr e1, Inl logic_error, Inr e2])
      \<and> cache_entries s2 = [e1, e2] \<and> ticket e1 = 18 \<and> ticket e2 = 19
      \<and> cache_index e2 = 1 \<and> cache_entry_ticket s2 1 = Inr 19"
    using run entries by auto
next
  let ?ds = "[sample_declare None, sample_declare (Some []), sample_declare None]"
  obtain s2 e1 e2 where run: "declare_all sample_numbers True (sample_system ''Base'') ?ds
      = (s2, [Inr e1, Inl logic_error, Inr e2])"
    by (simp add: sample_declare_def DeclareCacheEntry_None DeclareCacheEntry_accepts
        DeclareCacheEntry_empty)
  note facts = DeclareCacheEntry_appends_one_entry [where K = sample_numbers and F = True
      and T = "''Base''" and ds = ?ds and sf = s2 and rs = "[Inr e1, Inl logic_error, Inr e2]",
      THEN conjunct2, rule_format, OF run [unfolded sample_system_def]]
  have entries: "cache_entries s2 = [e1, e2]"
    using facts by simp
  have counter: "next_available_ticket s2 = 21"
    using facts by (simp add: sample_tickets tickets_drawn_def)
  have each: "cache_index ([e1, e2] ! i) = word_of_nat i
      \<and> ticket ([e1, e2] ! i) = 18 + word_of_nat ([0, 2] ! i)
      \<and> cache_entry_ticket s2 (word_of_nat i) = Inr (ticket ([e1, e2] ! i))"
    if "i < 2" for i
    using facts less_2_cases [OF that] by (auto simp: sample_tickets)
  have "ticket e1 = 18" "ticket e2 = 20" "cache_index e2 = 1"
    "cache_entry_ticket s2 1 = Inr 20"
    using each [of 0] each [of 1] by simp_all
  then show "\<exists>s2 e1 e2. declare_all sample_numbers True (sample_system ''Base'') ?ds
        = (s2, [Inr e1, Inl logic_error, Inr e2])
      \<and> cache_entries s2 = [e1, e2] \<and> ticket e1 = 18 \<and> ticket e2 = 20
      \<and> cache_index e2 = 1 \<and> cache_entry_ticket s2 1 = Inr 20
      \<and> next_available_ticket s2 = 21"
    using run entries counter by auto
qed

text \<open>
  C4. A call of any of the four forms that omits the prerequisite list is the call
  with the explicit list \<open>[all_sources_ticket]\<close>: same outcome, same subsystem
  afterwards; it succeeds (for a member-function form, when the check of the
  receiver passes) and the prerequisites stored in the declared entry are exactly
  \<open>[all_sources_ticket]\<close>.
\<close>

theorem omitted_prerequisites_default_to_all_sources:
  "DeclareCacheEntry K F s d a c None =
     DeclareCacheEntry K F s d a c (Some [all_sources_ticket K])
   \<and> DeclareCacheEntry_make K F H A s d mk calc None =
     DeclareCacheEntry_make K F H A s d mk calc (Some [all_sources_ticket K])
   \<and> DeclareCacheEntry_model K F H A s d mv calc None =
     DeclareCacheEntry_model K F H A s d mv calc (Some [all_sources_ticket K])
   \<and> DeclareCacheEntry_calc K F H A s d calc None =
     DeclareCacheEntry_calc K F H A s d calc (Some [all_sources_ticket K])
   \<and> (\<exists>s' e. DeclareCacheEntry K F s d a c None = (s', Inr e)
        \<and> prerequisites e = [all_sources_ticket K])
   \<and> (H (system_type s) (MySystem A) \<longrightarrow>
        (\<exists>s' e. DeclareCacheEntry_make K F H A s d mk calc None = (s', Inr e)
           \<and> prerequisites e = [all_sources_ticket K])
        \<and> (\<exists>s' e. DeclareCacheEntry_model K F H A s d mv calc None = (s', Inr e)
           \<and> prerequisites e = [all_sources_ticket K])
        \<and> (\<exists>s' e. DeclareCacheEntry_calc K F H A s d calc None = (s', Inr e)
           \<and> prerequisites e = [all_sources_ticket K]))"
  by (simp add: DeclareCacheEntry_None DeclareCacheEntry_make_cast
      DeclareCacheEntry_model_cast DeclareCacheEntry_calc_cast default_prerequisites_simps
      DeclareCacheEntry_accepts)

theorem omitted_prerequisites_default_to_all_sources_witness:
  "sample_hierarchy (system_type (sample_system ''Derived'')) (MySystem sample_arguments)
   \<and> (\<exists>s' e. DeclareCacheEntry_make sample_numbers False sample_hierarchy sample_arguments
          (sample_system ''Derived'') ''e'' sample_make sample_calc None = (s', Inr e)
        \<and> prerequisites e = [all_sources_ticket sample_numbers])
   \<and> (\<exists>s' e. DeclareCacheEntry_model sample_numbers False sample_hierarchy sample_arguments
          (sample_system ''Derived'') ''e'' 5 sample_calc None = (s', Inr e)
        \<and> prerequisites e = [all_sources_ticket sample_numbers])
   \<and> (\<exists>s' e. DeclareCacheEntry_calc sample_numbers False sample_hierarchy sample_arguments
          (sample_system ''Derived'') ''e'' sample_calc None = (s', Inr e)
        \<and> prerequisites e = [all_sources_ticket sample_numbers])"
  using sample_cast_ok
    omitted_prerequisites_default_to_all_sources [where K = sample_numbers and F = False
      and H = sample_hierarchy and A = sample_arguments and s = "sample_system ''Derived''"
      and d = "''e''" and mk = sample_make and calc = sample_calc and mv = 5
      and a = "\<lambda>context. Inr 0" and c = "calc_callback sample_arguments sample_calc"]
  by blast

text \<open>
  C5. A prerequisite list that has the nothing ticket and at least one other ticket
  is rejected at declaration, by every form, and no entry is added (the subsystem is
  unchanged where the general form looks at the list before it draws the ticket);
  the list with the nothing ticket alone is accepted, and stored as the
  prerequisites of the entry.
\<close>

theorem nothing_ticket_must_be_alone:
  assumes "nothing_ticket K \<in> set ps" and "\<exists>t \<in> set ps. t \<noteq> nothing_ticket K"
  shows "DeclareCacheEntry K F s d a c (Some ps) =
     (if F then s\<lparr>next_available_ticket := next_available_ticket s + 1\<rparr> else s,
      Inl contract_violation)
   \<and> (\<not> F \<longrightarrow>
        DeclareCacheEntry K F s d a c (Some ps) = (s, Inl contract_violation)
        \<and> fst (DeclareCacheEntry_make K F H A s d mk calc (Some ps)) = s
        \<and> fst (DeclareCacheEntry_model K F H A s d mv calc (Some ps)) = s
        \<and> fst (DeclareCacheEntry_calc K F H A s d calc (Some ps)) = s)
   \<and> cache_entries (fst (DeclareCacheEntry_make K F H A s d mk calc (Some ps)))
        = cache_entries s
   \<and> isl (snd (DeclareCacheEntry_make K F H A s d mk calc (Some ps)))
   \<and> cache_entries (fst (DeclareCacheEntry_model K F H A s d mv calc (Some ps)))
        = cache_entries s
   \<and> isl (snd (DeclareCacheEntry_model K F H A s d mv calc (Some ps)))
   \<and> cache_entries (fst (DeclareCacheEntry_calc K F H A s d calc (Some ps)))
        = cache_entries s
   \<and> isl (snd (DeclareCacheEntry_calc K F H A s d calc (Some ps)))
   \<and> (\<exists>s' e. DeclareCacheEntry K F s d a c (Some [nothing_ticket K]) = (s', Inr e)
        \<and> prerequisites e = [nothing_ticket K])
   \<and> (H (system_type s) (MySystem A) \<longrightarrow>
        (\<exists>s' e. DeclareCacheEntry_make K F H A s d mk calc (Some [nothing_ticket K]) = (s', Inr e)
           \<and> prerequisites e = [nothing_ticket K])
        \<and> (\<exists>s' e. DeclareCacheEntry_model K F H A s d mv calc (Some [nothing_ticket K]) = (s', Inr e)
           \<and> prerequisites e = [nothing_ticket K])
        \<and> (\<exists>s' e. DeclareCacheEntry_calc K F H A s d calc (Some [nothing_ticket K]) = (s', Inr e)
           \<and> prerequisites e = [nothing_ticket K]))"
proof -
  from assms have "ps \<noteq> []" and "length ps \<noteq> 1"
    by (auto simp: length_Suc_conv)
  with assms(1) have rejected:
    "DeclareCacheEntry K G s d a c (Some ps) =
       (if G then s\<lparr>next_available_ticket := next_available_ticket s + 1\<rparr> else s,
        Inl contract_violation)" for a c G
    by (simp add: DeclareCacheEntry_def default_prerequisites_simps
        assign_next_dependency_ticket_def)
  show ?thesis
    by (simp add: rejected DeclareCacheEntry_make_cast DeclareCacheEntry_model_cast
        DeclareCacheEntry_calc_cast default_prerequisites_simps DeclareCacheEntry_accepts)
qed

theorem nothing_ticket_must_be_alone_witness:
  "nothing_ticket sample_numbers
      \<in> set [nothing_ticket sample_numbers, time_ticket sample_numbers]
   \<and> (\<exists>t \<in> set [nothing_ticket sample_numbers, time_ticket sample_numbers].
         t \<noteq> nothing_ticket sample_numbers)
   \<and> DeclareCacheEntry sample_numbers False (sample_system ''Derived'') ''e''
        (\<lambda>context. Inr 0) (calc_callback sample_arguments sample_calc)
        (Some [nothing_ticket sample_numbers, time_ticket sample_numbers])
      = (sample_system ''Derived'', Inl contract_violation)
   \<and> isl (snd (DeclareCacheEntry_model sample_numbers False sample_hierarchy sample_arguments
        (sample_system ''Derived'') ''e'' 5 sample_calc
        (Some [nothing_ticket sample_numbers, time_ticket sample_numbers])))
   \<and> (\<exists>s' e. DeclareCacheEntry_make sample_numbers False sample_hierarchy sample_arguments
          (sample_system ''Derived'') ''e'' sample_make sample_calc
          (Some [nothing_ticket sample_numbers]) = (s', Inr e)
        \<and> prerequisites e = [nothing_ticket sample_numbers])"
proof -
  have h1: "nothing_ticket sample_numbers
      \<in> set [nothing_ticket sample_numbers, time_ticket sample_numbers]"
    by simp
  have h2: "\<exists>t \<in> set [nothing_ticket sample_numbers, time_ticket sample_numbers].
      t \<noteq> nothing_ticket sample_numbers"
    by (simp add: sample_tickets)
  show ?thesis
    using h1 h2 sample_cast_ok
      nothing_ticket_must_be_alone [OF h1 h2, where F = False and H = sample_hierarchy
        and A = sample_arguments and s = "sample_system ''Derived''"
        and d = "''e''" and mk = sample_make and calc = sample_calc and mv = 5
        and a = "\<lambda>context. Inr 0" and c = "calc_callback sample_arguments sample_calc"]
    by blast
qed

text \<open>
  C6, as amended. \<^verbatim>\<open>CheckValidContext\<close> (and with it
  \<^verbatim>\<open>ThrowIfContextNotCompatible\<close>) makes no check of its own: its outcome is the
  outcome of the hook \<^verbatim>\<open>DoCheckValidContext\<close> of the derived class, for every
  subsystem and context. The claim as stated, that the base layer rejects a context
  of the wrong structure even if the hook accepts it, fails: below, a context with
  three cache slots and a subcontext passes for a subsystem without cache entries.
\<close>

theorem CheckValidContext_is_the_hook:
  "CheckValidContext DoCheckValidContext s context = DoCheckValidContext s context
   \<and> ThrowIfContextNotCompatible DoCheckValidContext s context =
       DoCheckValidContext s context"
  by (simp add: ThrowIfContextNotCompatible_def CheckValidContext_def)

theorem CheckValidContext_accepts_mismatched_structure:
  "\<not> structure_matches (sample_system ''Base'') (ContextBase 3 [ContextBase 0 []])
   \<and> CheckValidContext accept_every_context (sample_system ''Base'')
        (ContextBase 3 [ContextBase 0 []]) = Inr ()
   \<and> ThrowIfContextNotCompatible accept_every_context (sample_system ''Base'')
        (ContextBase 3 [ContextBase 0 []]) = Inr ()"
  by (simp add: structure_matches_def sample_system_def SystemBase_default_def
      ThrowIfContextNotCompatible_def CheckValidContext_def accept_every_context_def)

text \<open>
  C7. The form that takes only a calculator is the model-value form called with the
  value-initialised \<^verbatim>\<open>ValueType{}\<close>: for every description, calculator and
  prerequisite list (given or omitted) both have the same outcome and leave the same
  subsystem. The entry of a successful call has the given description and
  prerequisites, the calculator lambda around \<open>calc\<close>, and an allocator that does
  not look at the context and returns, at every call, a clone of the one model made
  from \<^verbatim>\<open>ValueType{}\<close> at declaration: the allocator holds that value, not the
  constructor.
\<close>

theorem calc_only_is_model_value_form:
  "DeclareCacheEntry_calc K F H A s d calc p =
     DeclareCacheEntry_model K F H A s d (ValueType_init A) calc p
   \<and> (DeclareCacheEntry_calc K F H A s d calc p = (s', Inr e) \<longrightarrow>
        entry_description e = d
        \<and> prerequisites e = default_prerequisites K p
        \<and> Calc e = calc_callback A calc
        \<and> Alloc e = (\<lambda>context. Inr (Clone (Make A (ValueType_init A))))
        \<and> (\<forall>context. Alloc e context = Inr (Make A (ValueType_init A))))"
proof (intro conjI impI)
  show "DeclareCacheEntry_calc K F H A s d calc p =
      DeclareCacheEntry_model K F H A s d (ValueType_init A) calc p"
    by (rule DeclareCacheEntry_calc_eq_model)
next
  assume ok: "DeclareCacheEntry_calc K F H A s d calc p = (s', Inr e)"
  then have "DeclareCacheEntry K F s d (\<lambda>context. Inr (Clone (Make A (ValueType_init A))))
      (calc_callback A calc) (Some (default_prerequisites K p)) = (s', Inr e)"
    by (simp add: DeclareCacheEntry_calc_cast split: if_splits)
  note e = DeclareCacheEntry_Inr(1) [OF this]
  show "entry_description e = d"
    by (subst e) simp
  show "prerequisites e = default_prerequisites K p"
    by (subst e) (simp add: default_prerequisites_simps)
  show "Calc e = calc_callback A calc"
    by (subst e) simp
  show alloc: "Alloc e = (\<lambda>context. Inr (Clone (Make A (ValueType_init A))))"
    by (subst e) simp
  show "\<forall>context. Alloc e context = Inr (Make A (ValueType_init A))"
    by (simp add: alloc Clone_def)
qed

theorem calc_only_is_model_value_form_witness:
  "\<exists>s' e. DeclareCacheEntry_calc sample_numbers False sample_hierarchy sample_arguments
        (sample_system ''Derived'') ''e'' sample_calc None = (s', Inr e)
      \<and> DeclareCacheEntry_model sample_numbers False sample_hierarchy sample_arguments
        (sample_system ''Derived'') ''e'' 0 sample_calc None = (s', Inr e)
      \<and> entry_description e = ''e''
      \<and> prerequisites e = [all_sources_ticket sample_numbers]
      \<and> Calc e = calc_callback sample_arguments sample_calc
      \<and> Alloc e (ContextBase 0 []) = Inr 0
      \<and> Alloc e (ContextBase 1 []) = Inr 0"
proof -
  obtain s' e where ok:
    "DeclareCacheEntry_calc sample_numbers False sample_hierarchy sample_arguments
        (sample_system ''Derived'') ''e'' sample_calc None = (s', Inr e)"
    using sample_cast_ok
    by (simp add: DeclareCacheEntry_calc_cast default_prerequisites_simps
        DeclareCacheEntry_accepts)
  have init: "ValueType_init sample_arguments = 0" "Make sample_arguments = (\<lambda>v. v)"
    by (simp_all add: sample_arguments_def)
  show ?thesis
    using ok init
      calc_only_is_model_value_form [where K = sample_numbers and F = False and H = sample_hierarchy
        and A = sample_arguments and s = "sample_system ''Derived''" and d = "''e''"
        and calc = sample_calc and p = None and s' = s' and e = e]
    by (auto simp: default_prerequisites_simps)
qed

text \<open>
  C8. Each member-function form first casts \<^verbatim>\<open>this\<close> to \<^verbatim>\<open>MySystem\<close> and
  demands a result that is not null. When the class of the object neither is nor
  derives from \<^verbatim>\<open>MySystem\<close>, the call fails at that demand, with no entry
  registered and no ticket issued; a call that succeeds had a receiver of the right
  class. The form with a calculator only inherits the check from the model-value
  form.
\<close>

theorem mismatched_system_type_fails_fast:
  "(\<not> H (system_type s) (MySystem A) \<longrightarrow>
      DeclareCacheEntry_make K F H A s d mk calc p = (s, Inl demand_failure)
      \<and> DeclareCacheEntry_model K F H A s d mv calc p = (s, Inl demand_failure)
      \<and> DeclareCacheEntry_calc K F H A s d calc p = (s, Inl demand_failure))
   \<and> (DeclareCacheEntry_make K F H A s d mk calc p = (s', Inr e) \<longrightarrow>
        H (system_type s) (MySystem A))
   \<and> (DeclareCacheEntry_model K F H A s d mv calc p = (s', Inr e) \<longrightarrow>
        H (system_type s) (MySystem A))
   \<and> (DeclareCacheEntry_calc K F H A s d calc p = (s', Inr e) \<longrightarrow>
        H (system_type s) (MySystem A))"
  by (simp add: DeclareCacheEntry_make_cast DeclareCacheEntry_model_cast
      DeclareCacheEntry_calc_cast)

theorem mismatched_system_type_fails_fast_witness:
  "\<not> sample_hierarchy (system_type (sample_system ''Other'')) (MySystem sample_arguments)
   \<and> DeclareCacheEntry_make sample_numbers False sample_hierarchy sample_arguments
        (sample_system ''Other'') ''e'' sample_make sample_calc None
      = (sample_system ''Other'', Inl demand_failure)
   \<and> DeclareCacheEntry_model sample_numbers False sample_hierarchy sample_arguments
        (sample_system ''Other'') ''e'' 5 sample_calc None
      = (sample_system ''Other'', Inl demand_failure)
   \<and> DeclareCacheEntry_calc sample_numbers False sample_hierarchy sample_arguments
        (sample_system ''Other'') ''e'' sample_calc None
      = (sample_system ''Other'', Inl demand_failure)
   \<and> (\<exists>s' e. DeclareCacheEntry_make sample_numbers False sample_hierarchy sample_arguments
          (sample_system ''Derived'') ''e'' sample_make sample_calc None = (s', Inr e)
        \<and> sample_hierarchy (system_type (sample_system ''Derived''))
             (MySystem sample_arguments))"
proof -
  obtain s' e where ok:
    "DeclareCacheEntry_make sample_numbers False sample_hierarchy sample_arguments
        (sample_system ''Derived'') ''e'' sample_make sample_calc None = (s', Inr e)"
    using sample_cast_ok
    by (simp add: DeclareCacheEntry_make_cast default_prerequisites_simps
        DeclareCacheEntry_accepts)
  show ?thesis
  using ok sample_cast_fails
    mismatched_system_type_fails_fast [where K = sample_numbers and F = False and H = sample_hierarchy
      and A = sample_arguments and s = "sample_system ''Derived''" and d = "''e''"
      and mk = sample_make and calc = sample_calc and p = None and s' = s' and e = e]
    mismatched_system_type_fails_fast [where K = sample_numbers and F = False and H = sample_hierarchy
      and A = sample_arguments and s = "sample_system ''Other''" and d = "''e''"
      and mk = sample_make and calc = sample_calc and mv = 5 and p = None]
  by blast
qed

text \<open>
  C9. \<^verbatim>\<open>ThrowIfContextNotCompatible(context)\<close> is
  \<^verbatim>\<open>CheckValidContext(context)\<close>: for every implementation of the hook, every
  subsystem and every context both succeed or both throw the same exception.
  Both are \<^verbatim>\<open>const\<close> members that take a \<^verbatim>\<open>const\<close> reference: neither has a
  subsystem or a context to return.
\<close>

theorem ThrowIfContextNotCompatible_is_CheckValidContext:
  "ThrowIfContextNotCompatible DoCheckValidContext s context =
     CheckValidContext DoCheckValidContext s context"
  by (simp add: ThrowIfContextNotCompatible_def)

text \<open>
  C10. After \<open>set_name n\<close>, \<open>GetSystemName\<close> returns exactly \<open>n\<close>, for every
  string \<open>n\<close>: nothing is rejected or rewritten, the empty name and a name with
  the path delimiter \<open>/\<close> included, and \<open>set_name\<close> changes no other member of the
  subsystem (nor the part a derived class adds).
\<close>

theorem set_name_GetSystemName:
  "GetSystemName (set_name n s) = n
   \<and> cache_entries (set_name n s) = cache_entries s
   \<and> next_available_ticket (set_name n s) = next_available_ticket s
   \<and> system_type (set_name n s) = system_type s
   \<and> SystemBase.more (set_name n s) = SystemBase.more s
   \<and> GetSystemName (set_name [] s) = []
   \<and> GetSystemName (set_name ''a/b'' s) = ''a/b''"
  by (simp add: set_name_def GetSystemName_def)

end
